theory Spec2Isabelle
  imports Main "HOL-Library.Word" "HOL-Library.Log_Nat"
begin

section \<open>Uptime extension of xonsh (\<^verbatim>\<open>xonsh/xoreutils/_posix.c\<close>)\<close>

text \<open>
  The C file has one computation, \<^verbatim>\<open>_calc_uptime\<close>, and two entry points that fetch a
  boot timestamp from the operating system and pass it on: \<^verbatim>\<open>_uptime_posix\<close> (utmpx
  accounting records) and \<^verbatim>\<open>_uptime_osx\<close> (the \<^verbatim>\<open>kern.boottime\<close> kernel parameter).
  The embedding keeps the three functions, threads the operating system through them as
  an explicit state, and models the C arithmetic with its widths: the fields of
  \<^verbatim>\<open>struct timeval\<close> are 64-bit signed integers (an LP64 platform), \<^verbatim>\<open>unsigned\<close> is 32
  bits wide, and \<^verbatim>\<open>double\<close> is IEEE 754 binary64 with round-to-nearest-even. Signed
  arithmetic wraps around in two's complement where C leaves overflow undefined; with
  microsecond fields in range this can only happen in the seconds, for timestamps more
  than \<open>2 ^ 63\<close> seconds apart.
\<close>

subsection \<open>Data\<close>

text \<open>\<^verbatim>\<open>struct timeval\<close>: seconds and microseconds, both signed 64-bit (read with \<open>sint\<close>).\<close>

record timeval =
  tv_sec :: "64 word"
  tv_usec :: "64 word"

text \<open>
  A finite \<^verbatim>\<open>double\<close> is identified with the rational number it denotes. Every operation
  of the code on doubles is the exact operation followed by \<open>round_double\<close>.
\<close>

type_synonym double = rat

text \<open>What the entry points hand to the interpreter: \<^verbatim>\<open>Py_None\<close> or a Python float.\<close>

datatype pyobject = PyNone | PyFloat double

subsection \<open>Binary64 arithmetic\<close>

text \<open>Nearest integer, a tie going to the even neighbour.\<close>

definition nearest_even :: "rat \<Rightarrow> int" where
  "nearest_even x =
     (let f = \<lfloor>x\<rfloor>; d = x - of_int f
      in if d < 1 / 2 then f
         else if 1 / 2 < d then f + 1
         else if even f then f else f + 1)"

text \<open>The binary exponent of a positive rational: \<open>2 ^ e \<le> x < 2 ^ (e + 1)\<close>.\<close>

definition ilog2 :: "rat \<Rightarrow> int" where
  "ilog2 x = (if 1 \<le> x then bitlen \<lfloor>x\<rfloor> - 1 else - bitlen (\<lceil>1 / x\<rceil> - 1))"

text \<open>
  Rounding to binary64: 53 significant bits, so the spacing of doubles around \<open>x\<close> is
  \<open>2 powi (e - 52)\<close> for the exponent \<open>e\<close> of \<open>x\<close>, which is never below \<open>-1022\<close>
  (subnormal numbers share the spacing \<open>2 powi (-1074)\<close>). Overflow to infinity is left
  out: the code only rounds numbers below \<open>2 ^ 33\<close>.
\<close>

definition round_double :: "rat \<Rightarrow> double" where
  "round_double x =
     (if x = 0 then 0
      else let u = 2 powi (max (ilog2 \<bar>x\<bar>) (- 1022) - 52)
           in sgn x * of_int (nearest_even (\<bar>x\<bar> / u)) * u)"

text \<open>Conversion of an \<^verbatim>\<open>unsigned\<close> to \<^verbatim>\<open>double\<close> is exact: 32 bits fit in 53.\<close>

definition double_of_unsigned :: "32 word \<Rightarrow> double" where
  "double_of_unsigned n = of_nat (unat n)"

definition double_add :: "double \<Rightarrow> double \<Rightarrow> double" where
  "double_add a b = round_double (a + b)"

definition double_div :: "double \<Rightarrow> double \<Rightarrow> double" where
  "double_div a b = round_double (a / b)"

subsection \<open>The operating system\<close>

text \<open>
  The kinds of utmpx record (\<^verbatim>\<open>ut_type\<close>). The numeric values of the constants differ
  between systems, which is why the C file exists; only their identity matters here.
\<close>

datatype ut_kind =
  EMPTY | RUN_LVL | BOOT_TIME | NEW_TIME | OLD_TIME
  | INIT_PROCESS | LOGIN_PROCESS | USER_PROCESS | DEAD_PROCESS

text \<open>\<^verbatim>\<open>struct utmpx\<close>, cut down to the two members the code touches.\<close>

record utmpx =
  ut_type :: ut_kind
  ut_tv :: timeval

text \<open>
  The value the kernel keeps under the name \<^verbatim>\<open>kern.boottime\<close>: its size in bytes, and the
  \<^verbatim>\<open>struct timeval\<close> the caller reads from its buffer once the kernel has copied the
  value there.
\<close>

record kparam =
  kp_size :: nat
  kp_tv :: timeval

text \<open>The library and system calls the code makes, recorded in the order made.\<close>

datatype oscall = Gettimeofday | Getutxid | Endutxent | Sysctlbyname

text \<open>
  The operating system as the code sees it.
  \<^item> \<open>clock\<close>: what \<^verbatim>\<open>gettimeofday\<close> stores, \<open>None\<close> when the call fails;
  \<^item> \<open>utx_db\<close>: the records of the user-accounting database, in file order;
  \<^item> \<open>utx_pos\<close>: \<open>None\<close> while the process has the database closed, \<open>Some i\<close>
    while it holds it open with \<open>i\<close> records read;
  \<^item> \<open>kern_boottime\<close>: the kernel parameter, \<open>None\<close> when the kernel has none;
  \<^item> \<open>calls\<close>: the calls made so far.
\<close>

record os =
  clock :: "timeval option"
  utx_db :: "utmpx list"
  utx_pos :: "nat option"
  kern_boottime :: "kparam option"
  calls :: "oscall list"

text \<open>\<^verbatim>\<open>gettimeofday(&tv, NULL)\<close>: the current time, or failure.\<close>

definition gettimeofday :: "os \<Rightarrow> timeval option \<times> os" where
  "gettimeofday s = (clock s, s\<lparr>calls := calls s @ [Gettimeofday]\<rparr>)"

text \<open>Index of the first record of kind \<open>k\<close> at or after position \<open>i\<close>.\<close>

fun find_from :: "ut_kind \<Rightarrow> utmpx list \<Rightarrow> nat \<Rightarrow> nat option" where
  "find_from k [] i = None"
| "find_from k (r # rs) i =
     (if ut_type r = k then Some i else find_from k rs (Suc i))"

text \<open>
  \<^verbatim>\<open>getutxid(&id)\<close> for an \<open>id\<close> whose type is one of the time kinds: opens the database
  when it is closed, reads forward from the current position to the first record of that
  type and returns it, or returns \<^verbatim>\<open>NULL\<close> at the end of the file. The database stays
  open in both cases.
\<close>

definition getutxid :: "ut_kind \<Rightarrow> os \<Rightarrow> utmpx option \<times> os" where
  "getutxid k s =
     (let p = (case utx_pos s of None \<Rightarrow> 0 | Some i \<Rightarrow> i);
          s' = s\<lparr>calls := calls s @ [Getutxid]\<rparr>
      in case find_from k (drop p (utx_db s)) p of
           None \<Rightarrow> (None, s'\<lparr>utx_pos := Some (max p (length (utx_db s)))\<rparr>)
         | Some i \<Rightarrow> (Some (utx_db s ! i), s'\<lparr>utx_pos := Some (Suc i)\<rparr>))"

text \<open>\<^verbatim>\<open>endutxent()\<close>: closes the database.\<close>

definition endutxent :: "os \<Rightarrow> os" where
  "endutxent s = s\<lparr>utx_pos := None, calls := calls s @ [Endutxent]\<rparr>"

text \<open>\<^verbatim>\<open>sizeof(struct timeval)\<close> on the modelled platform.\<close>

definition sizeof_timeval :: nat where
  "sizeof_timeval = 16"

text \<open>
  \<^verbatim>\<open>sysctlbyname("kern.boottime", &bt, &len, NULL, 0)\<close> with \<open>len\<close> bytes of buffer. The
  call fails (\<open>None\<close>) when the kernel has no such parameter, and when the value does not
  fit in the buffer (\<^verbatim>\<open>ENOMEM\<close>). Otherwise it succeeds, whatever the size of the value:
  the result is the return code 0 with the buffer as the caller reads it and the number
  of bytes copied, which the kernel stores back in \<open>len\<close>.
\<close>

definition sysctlbyname_boottime :: "nat \<Rightarrow> os \<Rightarrow> (timeval \<times> nat) option \<times> os" where
  "sysctlbyname_boottime len s =
     (let s' = s\<lparr>calls := calls s @ [Sysctlbyname]\<rparr>
      in case kern_boottime s of
           None \<Rightarrow> (None, s')
         | Some p \<Rightarrow>
             if len < kp_size p then (None, s')
             else (Some (kp_tv p, kp_size p), s'))"

subsection \<open>The code\<close>

text \<open>
  Lines 26 to 33 of \<^verbatim>\<open>_calc_uptime\<close>, "Subtract boot time from current time":
  \<^verbatim>\<open>
    if (tv.tv_usec < bt.tv_usec) {
        tv.tv_sec--;
        tv.tv_usec = 1000000 - bt.tv_usec + tv.tv_usec;
    } else {
        tv.tv_usec -= bt.tv_usec;
    }
    tv.tv_sec -= bt.tv_sec;
  \<close>
  The comparison is signed. \<open>borrow\<close> is its condition.
\<close>

definition borrow :: "timeval \<Rightarrow> timeval \<Rightarrow> bool" where
  "borrow tv bt = (sint (tv_usec tv) < sint (tv_usec bt))"

definition subtract_boot_time :: "timeval \<Rightarrow> timeval \<Rightarrow> timeval" where
  "subtract_boot_time tv bt =
     (let tv1 = (if borrow tv bt
                 then tv\<lparr>tv_sec := tv_sec tv - 1,
                         tv_usec := 1000000 - tv_usec bt + tv_usec tv\<rparr>
                 else tv\<lparr>tv_usec := tv_usec tv - tv_usec bt\<rparr>)
      in tv1\<lparr>tv_sec := tv_sec tv1 - tv_sec bt\<rparr>)"

text \<open>
  Line 35, the value returned:
  \<^verbatim>\<open>(unsigned)tv.tv_sec + (unsigned)tv.tv_usec / 1000000.0\<close>.
  Each cast keeps the low 32 bits; the quotient and the sum are taken in \<^verbatim>\<open>double\<close>.
\<close>

definition seconds_of :: "timeval \<Rightarrow> double" where
  "seconds_of tv =
     double_add (double_of_unsigned (ucast (tv_sec tv)))
       (double_div (double_of_unsigned (ucast (tv_usec tv))) 1000000)"

text \<open>\<^verbatim>\<open>double _calc_uptime(struct timeval bt)\<close>.\<close>

definition calc_uptime :: "timeval \<Rightarrow> os \<Rightarrow> double \<times> os" where
  "calc_uptime bt s =
     (case gettimeofday s of
        (None, s') \<Rightarrow> (- 1, s')
      | (Some tv, s') \<Rightarrow> (seconds_of (subtract_boot_time tv bt), s'))"

text \<open>
  \<^verbatim>\<open>_uptime_posix\<close>. \<^verbatim>\<open>Py_BuildValue("d", x)\<close> makes the Python float \<open>x\<close>; the copy of
  \<^verbatim>\<open>res->ut_tv\<close> into \<open>bt\<close> is the read of that member.
\<close>

definition uptime_posix :: "os \<Rightarrow> pyobject \<times> os" where
  "uptime_posix s =
     (case getutxid BOOT_TIME s of
        (None, s1) \<Rightarrow> (PyNone, endutxent s1)
      | (Some res, s1) \<Rightarrow>
          (let bt = ut_tv res;
               s2 = endutxent s1;
               (d, s3) = calc_uptime bt s2
           in (PyFloat d, s3)))"

text \<open>
  \<^verbatim>\<open>_uptime_osx\<close>. The argument is whether \<^verbatim>\<open>__APPLE__\<close> was defined when the file was
  compiled: without it the function is the stub that returns \<^verbatim>\<open>Py_None\<close>. The length
  the call stores back is not read again.
\<close>

definition uptime_osx :: "bool \<Rightarrow> os \<Rightarrow> pyobject \<times> os" where
  "uptime_osx apple s =
     (if apple then
        (case sysctlbyname_boottime sizeof_timeval s of
           (None, s1) \<Rightarrow> (PyNone, s1)
         | (Some (bt, len), s1) \<Rightarrow>
             (let (d, s2) = calc_uptime bt s1 in (PyFloat d, s2)))
      else (PyNone, s))"

subsection \<open>Notions used to state the properties\<close>

text \<open>A timestamp whose microsecond field is normalised: in \<open>[0, 1000000)\<close>.\<close>

definition usec_ok :: "timeval \<Rightarrow> bool" where
  "usec_ok t = (0 \<le> sint (tv_usec t) \<and> sint (tv_usec t) < 1000000)"

text \<open>A timestamp as one number: microseconds since the epoch.\<close>

definition micros :: "timeval \<Rightarrow> int" where
  "micros t = sint (tv_sec t) * 1000000 + sint (tv_usec t)"

text \<open>
  The second delta of the subtraction as a mathematical integer: current seconds, less the
  borrowed second if any, less boot seconds.
\<close>

definition sec_delta :: "timeval \<Rightarrow> timeval \<Rightarrow> int" where
  "sec_delta tv bt = sint (tv_sec tv) - (if borrow tv bt then 1 else 0) - sint (tv_sec bt)"

text \<open>The timestamp \<open>(s, u)\<close>.\<close>

definition mk_timeval :: "int \<Rightarrow> int \<Rightarrow> timeval" where
  "mk_timeval s u = \<lparr>tv_sec = word_of_int s, tv_usec = word_of_int u\<rparr>"

text \<open>
  A system in its initial state (accounting database closed, no call made yet) with the
  given clock, accounting records and kernel parameter.
\<close>

definition boot_os :: "timeval option \<Rightarrow> utmpx list \<Rightarrow> kparam option \<Rightarrow> os" where
  "boot_os c db kp =
     \<lparr>clock = c, utx_db = db, utx_pos = None, kern_boottime = kp, calls = []\<rparr>"

section \<open>Properties\<close>

subsection \<open>Rounding\<close>

lemma nearest_even_err: "\<bar>of_int (nearest_even x) - x\<bar> \<le> 1 / 2"
proof -
  have "of_int \<lfloor>x\<rfloor> \<le> x" "x < of_int \<lfloor>x\<rfloor> + 1" by linarith+
  then show ?thesis
    by (auto simp: nearest_even_def Let_def)
qed

lemma nearest_even_of_int: "nearest_even (of_int n) = n"
  by (simp add: nearest_even_def)

lemma nearest_even_nonneg: "0 \<le> x \<Longrightarrow> 0 \<le> nearest_even x"
  by (auto simp: nearest_even_def Let_def)

lemma ilog2_lower:
  assumes "0 < x"
  shows "2 powi (ilog2 x) \<le> x"
proof (cases "1 \<le> x")
  case True
  then have n: "0 < \<lfloor>x\<rfloor>" by linarith
  from bitlen_bounds [OF n] have "2 ^ nat (bitlen \<lfloor>x\<rfloor> - 1) \<le> \<lfloor>x\<rfloor>" by simp
  then have "(of_int (2 ^ nat (bitlen \<lfloor>x\<rfloor> - 1)) :: rat) \<le> of_int \<lfloor>x\<rfloor>"
    by (simp only: of_int_le_iff)
  also have "\<dots> \<le> x" by simp
  finally have "(2::rat) ^ nat (bitlen \<lfloor>x\<rfloor> - 1) \<le> x" by simp
  moreover have "1 \<le> bitlen \<lfloor>x\<rfloor>" using n by (simp add: bitlen_alt_def)
  ultimately show ?thesis using True by (simp add: ilog2_def power_int_def)
next
  case False
  define c where "c = \<lceil>1 / x\<rceil>"
  define b where "b = bitlen (c - 1)"
  from False assms have y: "1 < 1 / x" by simp
  then have c: "0 < c - 1" unfolding c_def by linarith
  from bitlen_bounds [OF c] have "c - 1 < 2 ^ nat b" by (simp add: b_def)
  then have "c \<le> 2 ^ nat b" by simp
  then have "(of_int c :: rat) \<le> of_int (2 ^ nat b)" by (simp only: of_int_le_iff)
  then have "(of_int c :: rat) \<le> 2 ^ nat b" by simp
  moreover have "1 / x \<le> of_int c" unfolding c_def by linarith
  ultimately have "1 / x \<le> 2 ^ nat b" by linarith
  then have "1 \<le> 2 ^ nat b * x" using assms by (simp add: field_simps)
  then have "1 / 2 ^ nat b \<le> x" by (simp add: field_simps)
  moreover have "1 \<le> b" using c by (simp add: b_def bitlen_alt_def)
  ultimately show ?thesis using False
    by (simp add: ilog2_def power_int_def b_def [symmetric] c_def [symmetric] field_simps)
qed

lemma ilog2_upper:
  assumes "0 < x"
  shows "x < 2 powi (ilog2 x + 1)"
proof (cases "1 \<le> x")
  case True
  then have n: "0 < \<lfloor>x\<rfloor>" by linarith
  from bitlen_bounds [OF n] have "\<lfloor>x\<rfloor> + 1 \<le> 2 ^ nat (bitlen \<lfloor>x\<rfloor>)" by simp
  then have "(of_int (\<lfloor>x\<rfloor> + 1) :: rat) \<le> of_int (2 ^ nat (bitlen \<lfloor>x\<rfloor>))"
    by (simp only: of_int_le_iff)
  moreover have "x < of_int (\<lfloor>x\<rfloor> + 1)" by simp linarith
  ultimately have "x < 2 ^ nat (bitlen \<lfloor>x\<rfloor>)" by simp
  moreover have "0 \<le> bitlen \<lfloor>x\<rfloor>" by (simp add: bitlen_nonneg)
  ultimately show ?thesis using True by (simp add: ilog2_def power_int_def)
next
  case False
  define c where "c = \<lceil>1 / x\<rceil>"
  define b where "b = bitlen (c - 1)"
  from False assms have y: "1 < 1 / x" by simp
  then have c: "0 < c - 1" unfolding c_def by linarith
  then have b1: "1 \<le> b" by (simp add: b_def bitlen_alt_def)
  from bitlen_bounds [OF c] have "2 ^ nat (b - 1) \<le> c - 1" by (simp add: b_def)
  then have "(of_int (2 ^ nat (b - 1)) :: rat) \<le> of_int (c - 1)" by (simp only: of_int_le_iff)
  moreover have "of_int (c - 1) < 1 / x" unfolding c_def by simp linarith
  ultimately have "2 ^ nat (b - 1) < 1 / x" by simp
  then have "2 ^ nat (b - 1) * x < 1" using assms by (simp add: field_simps)
  then have "x < 1 / 2 ^ nat (b - 1)" by (simp add: field_simps)
  moreover have "- b + 1 \<le> 0" using b1 by simp
  ultimately show ?thesis using False b1
    by (simp add: ilog2_def power_int_def b_def [symmetric] c_def [symmetric] field_simps)
qed

lemma ilog2_less:
  assumes "0 < x" "x < 2 powi k"
  shows "ilog2 x < k"
proof (rule ccontr)
  assume "\<not> ilog2 x < k"
  then have "k \<le> ilog2 x" by simp
  then have "(2::rat) powi k \<le> 2 powi (ilog2 x)" by (intro power_int_increasing) auto
  with ilog2_lower [OF assms(1)] assms(2) show False by simp
qed

lemma round_double_nonneg: "0 \<le> x \<Longrightarrow> 0 \<le> round_double x"
proof -
  assume x: "0 \<le> x"
  show ?thesis
  proof (cases "x = 0")
    case True then show ?thesis by (simp add: round_double_def)
  next
    case False
    with x have "0 < x" by simp
    then have "0 \<le> nearest_even (x / 2 powi (max (ilog2 x) (- 1022) - 52))"
      by (intro nearest_even_nonneg) simp
    then show ?thesis using \<open>0 < x\<close>
      by (simp add: round_double_def Let_def)
  qed
qed

lemma round_double_err:
  assumes x: "0 \<le> x" "x < 2 powi k" and k: "- 1021 \<le> k"
  shows "\<bar>round_double x - x\<bar> \<le> 2 powi (k - 54)"
proof (cases "x = 0")
  case True then show ?thesis by (simp add: round_double_def)
next
  case False
  with x have pos: "0 < x" by simp
  define e where "e = max (ilog2 x) (- 1022) - 52"
  define u :: rat where "u = 2 powi e"
  have u: "0 < u" by (simp add: u_def zero_less_power_int)
  have "ilog2 x < k" using pos x(2) by (rule ilog2_less)
  with k have "e + 1 \<le> k - 54 + 1 + 1" by (simp add: e_def)
  then have e: "e \<le> k - 54 + 1" by simp
  have rd: "round_double x = of_int (nearest_even (x / u)) * u"
    using pos by (simp add: round_double_def Let_def u_def e_def)
  have "\<bar>of_int (nearest_even (x / u)) - x / u\<bar> \<le> 1 / 2" by (rule nearest_even_err)
  then have "\<bar>of_int (nearest_even (x / u)) - x / u\<bar> * u \<le> 1 / 2 * u"
    using u by (intro mult_right_mono) auto
  moreover have "\<bar>of_int (nearest_even (x / u)) - x / u\<bar> * u = \<bar>round_double x - x\<bar>"
  proof -
    have "\<bar>of_int (nearest_even (x / u)) - x / u\<bar> * u
        = \<bar>(of_int (nearest_even (x / u)) - x / u) * u\<bar>"
      using u by (simp add: abs_mult)
    also have "(of_int (nearest_even (x / u)) - x / u) * u = round_double x - x"
      using u by (simp add: rd left_diff_distrib)
    finally show ?thesis .
  qed
  ultimately have "\<bar>round_double x - x\<bar> \<le> u / 2" by simp
  also have "u \<le> 2 powi (k - 54 + 1)" unfolding u_def using e by (intro power_int_increasing) auto
  then have "u / 2 \<le> 2 powi (k - 54 + 1) / 2" by simp
  also have "\<dots> = 2 powi (k - 54)"
    using power_int_add_1 [of "2::rat" "k - 54"] by simp
  finally show ?thesis .
qed


lemma round_double_exact:
  assumes m: "\<bar>m\<bar> < 2 ^ 53" and e: "- 1074 \<le> e"
  shows "round_double (of_int m * 2 powi e) = of_int m * 2 powi e"
proof (cases "m = 0")
  case True then show ?thesis by (simp add: round_double_def)
next
  case False
  define x :: rat where "x = of_int m * 2 powi e"
  define E where "E = max (ilog2 \<bar>x\<bar>) (- 1022) - 52"
  have ax: "\<bar>x\<bar> = of_int \<bar>m\<bar> * 2 powi e"
    by (simp add: x_def abs_mult power_int_abs)
  have pos: "0 < \<bar>x\<bar>" using False by (simp add: x_def)
  have "(of_int \<bar>m\<bar> :: rat) < of_int (2 ^ 53)" using m by (simp only: of_int_less_iff)
  then have "(of_int \<bar>m\<bar> :: rat) < 2 powi 53" by simp
  then have "\<bar>x\<bar> < 2 powi 53 * 2 powi e"
    unfolding ax by (intro mult_strict_right_mono) (auto simp: zero_less_power_int)
  also have "\<dots> = 2 powi (53 + e)" by (simp add: power_int_add)
  finally have "ilog2 \<bar>x\<bar> < 53 + e" using pos by (intro ilog2_less)
  with e have Ee: "E \<le> e" by (simp add: E_def)
  have "\<bar>x\<bar> / 2 powi E = of_int \<bar>m\<bar> * 2 powi (e - E)"
    by (simp add: ax power_int_diff)
  also have "2 powi (e - E) = (2::rat) ^ nat (e - E)"
    using Ee by (simp add: power_int_nonneg_exp)
  finally have q: "\<bar>x\<bar> / 2 powi E = of_int (\<bar>m\<bar> * 2 ^ nat (e - E))"
    by simp
  have "nearest_even (\<bar>x\<bar> / 2 powi E) = \<bar>m\<bar> * 2 ^ nat (e - E)"
    unfolding q by (rule nearest_even_of_int)
  then have "round_double x = sgn x * of_int (\<bar>m\<bar> * 2 ^ nat (e - E)) * 2 powi E"
    using pos by (simp add: round_double_def Let_def E_def)
  also have "\<dots> = sgn x * (\<bar>x\<bar> / 2 powi E) * 2 powi E"
    by (simp only: q)
  also have "\<dots> = x"
    by (simp add: sgn_mult_abs)
  finally show ?thesis by (simp add: x_def)
qed

subsection \<open>From machine words to integers\<close>

lemma sint64_of_int:
  "- (2 ^ 63) \<le> k \<Longrightarrow> k < 2 ^ 63 \<Longrightarrow> sint (word_of_int k :: 64 word) = k"
  by (simp add: sint_sbintrunc' signed_take_bit_int_eq_self)

lemma sint_usec_borrow:
  fixes a b :: "64 word"
  assumes "0 \<le> sint a" "sint a < 1000000" "0 \<le> sint b" "sint b < 1000000"
  shows "sint (1000000 - b + a) = 1000000 - sint b + sint a"
proof -
  have "1000000 - b + a = word_of_int (1000000 - sint b + sint a)" by simp
  moreover have "sint (word_of_int (1000000 - sint b + sint a) :: 64 word) = 1000000 - sint b + sint a"
    using assms by (intro sint64_of_int) simp_all
  ultimately show ?thesis by simp
qed

lemma sint_usec_diff:
  fixes a b :: "64 word"
  assumes "0 \<le> sint a" "sint a < 1000000" "0 \<le> sint b" "sint b < 1000000"
  shows "sint (a - b) = sint a - sint b"
proof -
  have "a - b = word_of_int (sint a - sint b)" by simp
  moreover have "sint (word_of_int (sint a - sint b) :: 64 word) = sint a - sint b"
    using assms by (intro sint64_of_int) simp_all
  ultimately show ?thesis by simp
qed

lemma usec_delta:
  assumes "usec_ok tv" "usec_ok bt"
  shows "sint (tv_usec (subtract_boot_time tv bt)) =
    (if borrow tv bt then 1000000 - sint (tv_usec bt) + sint (tv_usec tv)
     else sint (tv_usec tv) - sint (tv_usec bt))"
  using assms
  by (simp add: subtract_boot_time_def Let_def usec_ok_def sint_usec_borrow sint_usec_diff)

lemma uint_ucast_64_32:
  "uint (ucast (word_of_int k :: 64 word) :: 32 word) = k mod 2 ^ 32"
proof -
  have "uint (ucast (word_of_int k :: 64 word) :: 32 word) = (k mod 2 ^ 64) mod 2 ^ 32"
    by (simp add: unsigned_ucast_eq uint_word_of_int take_bit_int_def)
  also have "\<dots> = k mod 2 ^ 32"
    by (rule mod_mod_cancel) simp
  finally show ?thesis .
qed

lemma sec_cast:
  "uint (ucast (tv_sec (subtract_boot_time tv bt)) :: 32 word) = sec_delta tv bt mod 2 ^ 32"
proof -
  have "tv_sec (subtract_boot_time tv bt) = word_of_int (sec_delta tv bt)"
    by (simp add: subtract_boot_time_def sec_delta_def Let_def)
  then show ?thesis by (simp only: uint_ucast_64_32)
qed

lemma micros_div_mod:
  assumes "usec_ok tv" "usec_ok bt"
  shows "(micros tv - micros bt) div 1000000 = sec_delta tv bt"
    and "(micros tv - micros bt) mod 1000000 = sint (tv_usec (subtract_boot_time tv bt))"
proof -
  define r where "r = sint (tv_usec (subtract_boot_time tv bt))"
  have r: "0 \<le> r" "r < 1000000"
    using assms by (auto simp: r_def usec_delta usec_ok_def borrow_def)
  have "micros tv - micros bt = sec_delta tv bt * 1000000 + r"
    using assms by (simp add: sec_delta_def r_def usec_delta micros_def algebra_simps)
  then have "(micros tv - micros bt) div 1000000 = sec_delta tv bt
      \<and> (micros tv - micros bt) mod 1000000 = r"
    using r by (simp add: div_pos_pos_trivial)
  then show "(micros tv - micros bt) div 1000000 = sec_delta tv bt"
    and "(micros tv - micros bt) mod 1000000 = sint (tv_usec (subtract_boot_time tv bt))"
    by (simp_all add: r_def)
qed

lemma usec_cast:
  "uint (ucast (w :: 64 word) :: 32 word) = sint w mod 2 ^ 32"
proof -
  have "w = word_of_int (sint w)" by simp
  then have "uint (ucast w :: 32 word) = uint (ucast (word_of_int (sint w) :: 64 word) :: 32 word)"
    by simp
  then show ?thesis by (simp only: uint_ucast_64_32)
qed

lemma seconds_of_int:
  "seconds_of t =
     double_add (of_int (sint (tv_sec t) mod 2 ^ 32))
       (double_div (of_int (sint (tv_usec t) mod 2 ^ 32)) 1000000)"
proof -
  have "double_of_unsigned (ucast (w :: 64 word)) = of_int (sint w mod 2 ^ 32)" for w
  proof -
    have "double_of_unsigned (ucast w) = of_int (uint (ucast w :: 32 word))"
      by (simp add: double_of_unsigned_def)
    then show ?thesis by (simp only: usec_cast)
  qed
  then show ?thesis by (simp only: seconds_of_def)
qed

subsection \<open>The value returned\<close>

lemma double_sum_bound:
  fixes S U :: int
  assumes S: "0 \<le> S" "S < 2 ^ 32" and U: "0 \<le> U" "U < 2 ^ 32"
  shows "0 \<le> double_add (of_int S) (double_div (of_int U) 1000000)"
    and "\<bar>double_add (of_int S) (double_div (of_int U) 1000000)
           - (of_int S + of_int U / 1000000)\<bar> < 1 / 2000000"
proof -
  define q :: rat where "q = of_int U / 1000000"
  define f where "f = round_double q"
  define t where "t = of_int S + f"
  have q0: "0 \<le> q" using U by (simp add: q_def)
  have "(of_int U :: rat) < of_int (2 ^ 32)" using U by (simp only: of_int_less_iff)
  then have "q < 4295" by (simp add: q_def)
  then have "q < 2 powi 13" by simp
  from round_double_err [OF q0 this] have fq: "\<bar>f - q\<bar> \<le> 2 powi (- 41)"
    by (simp add: f_def)
  have f0: "0 \<le> f" unfolding f_def using q0 by (rule round_double_nonneg)
  have t0: "0 \<le> t" using S f0 by (simp add: t_def)
  have "(of_int S :: rat) < of_int (2 ^ 32)" using S by (simp only: of_int_less_iff)
  then have "t < 4294967296 + f" by (simp add: t_def)
  also have "f < 4296"
  proof -
    have "(2::rat) powi (- 41) \<le> 1" by simp
    with fq have "\<bar>f - q\<bar> \<le> 1" by (rule order_trans)
    with \<open>q < 4295\<close> show ?thesis by linarith
  qed
  finally have "t < 2 powi 33" by simp
  from round_double_err [OF t0 this] have rt: "\<bar>round_double t - t\<bar> \<le> 2 powi (- 21)"
    by simp
  have r: "double_add (of_int S) (double_div (of_int U) 1000000) = round_double t"
    by (simp add: double_add_def double_div_def t_def f_def q_def)
  show "0 \<le> double_add (of_int S) (double_div (of_int U) 1000000)"
    unfolding r using t0 by (rule round_double_nonneg)
  have "\<bar>round_double t - (of_int S + q)\<bar> \<le> \<bar>round_double t - t\<bar> + \<bar>f - q\<bar>"
    by (simp add: t_def)
  also have "\<dots> \<le> 2 powi (- 21) + 2 powi (- 41)" using rt fq by (rule add_mono)
  also have "\<dots> < 1 / 2000000" by simp
  finally show "\<bar>double_add (of_int S) (double_div (of_int U) 1000000)
           - (of_int S + of_int U / 1000000)\<bar> < 1 / 2000000"
    by (simp add: r q_def)
qed

lemma calc_uptime_clock:
  "clock s = Some tv \<Longrightarrow> fst (calc_uptime bt s) = seconds_of (subtract_boot_time tv bt)"
  by (simp add: calc_uptime_def gettimeofday_def)

lemma calc_uptime_fail: "clock s = None \<Longrightarrow> fst (calc_uptime bt s) = - 1"
  by (simp add: calc_uptime_def gettimeofday_def)

lemma seconds_of_bound:
  "0 \<le> seconds_of t"
  "\<bar>seconds_of t - (of_int (sint (tv_sec t) mod 2 ^ 32)
       + of_int (sint (tv_usec t) mod 2 ^ 32) / 1000000)\<bar> < 1 / 2000000"
proof -
  have S: "0 \<le> sint (tv_sec t) mod 2 ^ 32" "sint (tv_sec t) mod 2 ^ 32 < 2 ^ 32" by simp_all
  have U: "0 \<le> sint (tv_usec t) mod 2 ^ 32" "sint (tv_usec t) mod 2 ^ 32 < 2 ^ 32" by simp_all
  show "0 \<le> seconds_of t"
    unfolding seconds_of_int by (rule double_sum_bound(1) [OF S U])
  show "\<bar>seconds_of t - (of_int (sint (tv_sec t) mod 2 ^ 32)
       + of_int (sint (tv_usec t) mod 2 ^ 32) / 1000000)\<bar> < 1 / 2000000"
    unfolding seconds_of_int by (rule double_sum_bound(2) [OF S U])
qed

lemma sint_sec_sub: "sint (tv_sec (subtract_boot_time tv bt)) mod 2 ^ 32 = sec_delta tv bt mod 2 ^ 32"
  using sec_cast [of tv bt] by (simp only: usec_cast)

lemma elapsed_value:
  assumes "usec_ok tv" "usec_ok bt"
    and "micros bt \<le> micros tv" "micros tv - micros bt < 2 ^ 32 * 1000000"
  shows "\<bar>seconds_of (subtract_boot_time tv bt) - of_int (micros tv - micros bt) / 1000000\<bar>
           < 1 / 2000000"
    and "sint (tv_sec (subtract_boot_time tv bt)) = sec_delta tv bt"
proof -
  define d where "d = micros tv - micros bt"
  define t where "t = subtract_boot_time tv bt"
  have d: "0 \<le> d" "d < 2 ^ 32 * 1000000" using assms by (simp_all add: d_def)
  have D: "d div 1000000 = sec_delta tv bt" and U: "d mod 1000000 = sint (tv_usec t)"
    unfolding d_def t_def using assms(1,2) by (rule micros_div_mod)+
  have U0: "0 \<le> sint (tv_usec t)" "sint (tv_usec t) < 1000000"
    using U [symmetric] by simp_all
  have dec: "d = sec_delta tv bt * 1000000 + sint (tv_usec t)"
    using D U by (metis mult.commute mult_div_mod_eq)
  have D0: "0 \<le> sec_delta tv bt" using d(1) U0 dec by arith
  have D1: "sec_delta tv bt < 2 ^ 32" using d(2) U0 dec by simp
  have "sint (tv_sec t) mod 2 ^ 32 = sec_delta tv bt mod 2 ^ 32"
    unfolding t_def by (rule sint_sec_sub)
  also have "\<dots> = sec_delta tv bt" using D0 D1 by simp
  finally have "sint (tv_sec t) mod 2 ^ 32 = sec_delta tv bt" .
  moreover have "sint (tv_usec t) mod 2 ^ 32 = sint (tv_usec t)" using U0 by simp
  ultimately have "\<bar>seconds_of t - (of_int (sec_delta tv bt) + of_int (sint (tv_usec t)) / 1000000)\<bar>
       < 1 / 2000000"
    using seconds_of_bound(2) [of t] by simp
  then show "\<bar>seconds_of (subtract_boot_time tv bt) - of_int (micros tv - micros bt) / 1000000\<bar>
           < 1 / 2000000"
    by (simp add: t_def d_def [symmetric] dec add_divide_distrib)
  have "tv_sec (subtract_boot_time tv bt) = word_of_int (sec_delta tv bt)"
    by (simp add: subtract_boot_time_def sec_delta_def Let_def)
  moreover have "sint (word_of_int (sec_delta tv bt) :: 64 word) = sec_delta tv bt"
    using D0 D1 by (intro sint64_of_int) simp_all
  ultimately show "sint (tv_sec (subtract_boot_time tv bt)) = sec_delta tv bt" by simp
qed

lemma round_double_zero: "round_double 0 = 0"
  by (simp add: round_double_def)

lemma round_double_half: "round_double (1 / 2) = 1 / 2"
  using round_double_exact [of 1 "- 1"] by simp

lemma round_double_three_quarters: "round_double (3 / 4) = 3 / 4"
  using round_double_exact [of 3 "- 2"] by simp

lemma round_double_19_4: "round_double (19 / 4) = 19 / 4"
  using round_double_exact [of 19 "- 2"] by simp

subsection \<open>The entry points\<close>

lemma find_from_None:
  "find_from k rs i = None \<longleftrightarrow> (\<forall>r \<in> set rs. ut_type r \<noteq> k)"
  by (induction rs arbitrary: i) auto

lemma find_from_Some:
  "find_from k rs i = Some j \<Longrightarrow> i \<le> j \<and> j < i + length rs \<and> ut_type (rs ! (j - i)) = k"
proof (induction rs arbitrary: i)
  case Nil
  then show ?case by simp
next
  case (Cons r rs)
  show ?case
  proof (cases "ut_type r = k")
    case True
    with Cons.prems show ?thesis by simp
  next
    case False
    with Cons.prems have "find_from k rs (Suc i) = Some j" by simp
    from Cons.IH [OF this] show ?thesis by (auto simp: Suc_diff_le)
  qed
qed

lemma getutxid_None:
  "fst (getutxid k s) = None \<longleftrightarrow>
     (\<forall>r \<in> set (drop (case utx_pos s of None \<Rightarrow> 0 | Some i \<Rightarrow> i) (utx_db s)). ut_type r \<noteq> k)"
proof -
  define p where "p = (case utx_pos s of None \<Rightarrow> 0 | Some i \<Rightarrow> i)"
  have "fst (getutxid k s) = None \<longleftrightarrow> find_from k (drop p (utx_db s)) p = None"
    by (simp add: getutxid_def Let_def p_def [symmetric] split: option.splits)
  then show ?thesis by (simp only: find_from_None p_def)
qed

lemma getutxid_Some:
  assumes "fst (getutxid k s) = Some res"
  shows "res \<in> set (utx_db s) \<and> ut_type res = k"
proof -
  define p where "p = (case utx_pos s of None \<Rightarrow> 0 | Some i \<Rightarrow> i)"
  from assms obtain j where j: "find_from k (drop p (utx_db s)) p = Some j"
    and res: "res = utx_db s ! j"
    by (auto simp: getutxid_def Let_def p_def split: option.splits)
  from find_from_Some [OF j] have b: "p \<le> j" "j < p + length (drop p (utx_db s))"
    and t: "ut_type (drop p (utx_db s) ! (j - p)) = k" by simp_all
  from b have l: "j < length (utx_db s)" by simp
  with b t have "ut_type (utx_db s ! j) = k" by simp
  with l res show ?thesis by simp
qed

lemma calc_uptime_nonneg_or_fail:
  "(clock s \<noteq> None \<and> 0 \<le> fst (calc_uptime bt s)) \<or>
   (clock s = None \<and> fst (calc_uptime bt s) = - 1)"
  by (cases "clock s") (simp_all add: calc_uptime_fail calc_uptime_clock seconds_of_bound(1))

lemma getutxid_clock: "clock (snd (getutxid k s)) = clock s"
  by (simp add: getutxid_def Let_def split: option.splits)

lemma endutxent_clock: "clock (endutxent s) = clock s"
  by (simp add: endutxent_def)

lemma sysctl_clock: "clock (snd (sysctlbyname_boottime n s)) = clock s"
  by (simp add: sysctlbyname_boottime_def Let_def split: option.splits)

lemma uptime_posix_result:
  "fst (uptime_posix s) =
     (case fst (getutxid BOOT_TIME s) of
        None \<Rightarrow> PyNone
      | Some res \<Rightarrow> PyFloat (fst (calc_uptime (ut_tv res) (endutxent (snd (getutxid BOOT_TIME s))))))"
  by (simp add: uptime_posix_def Let_def split: prod.splits option.splits)

lemma uptime_osx_result:
  "fst (uptime_osx apple s) =
     (if apple then
        (case fst (sysctlbyname_boottime sizeof_timeval s) of
           None \<Rightarrow> PyNone
         | Some r \<Rightarrow> PyFloat (fst (calc_uptime (fst r) (snd (sysctlbyname_boottime sizeof_timeval s)))))
      else PyNone)"
  by (simp add: uptime_osx_def Let_def split: prod.splits option.splits)

section \<open>The claims\<close>

text \<open>
  C5. When the accounting database has no boot-time record for \<^verbatim>\<open>getutxid\<close> to return,
  \<^verbatim>\<open>_uptime_posix\<close> returns \<^verbatim>\<open>Py_None\<close>, which is no float (not zero, not the error value
  of \<^verbatim>\<open>_calc_uptime\<close>), and the only calls it makes are \<^verbatim>\<open>getutxid\<close> and \<^verbatim>\<open>endutxent\<close>:
  \<^verbatim>\<open>_calc_uptime\<close>, whose first action is \<^verbatim>\<open>gettimeofday\<close>, is not entered.
\<close>

theorem posix_no_record_is_none:
  assumes "fst (getutxid BOOT_TIME s) = None"
  shows "fst (uptime_posix s) = PyNone \<and> (\<forall>d. fst (uptime_posix s) \<noteq> PyFloat d) \<and>
    calls (snd (uptime_posix s)) = calls s @ [Getutxid, Endutxent]"
  using assms
  by (auto simp: uptime_posix_def endutxent_def getutxid_def Let_def
      split: prod.splits option.splits)

theorem posix_no_record_is_none_witness:
  "fst (getutxid BOOT_TIME (boot_os (Some (mk_timeval 1005 250000))
        [\<lparr>ut_type = USER_PROCESS, ut_tv = mk_timeval 1000 500000\<rparr>] None)) = None \<and>
   fst (uptime_posix (boot_os (Some (mk_timeval 1005 250000))
        [\<lparr>ut_type = USER_PROCESS, ut_tv = mk_timeval 1000 500000\<rparr>] None)) = PyNone \<and>
   calls (snd (uptime_posix (boot_os (Some (mk_timeval 1005 250000))
        [\<lparr>ut_type = USER_PROCESS, ut_tv = mk_timeval 1000 500000\<rparr>] None)))
     = [Getutxid, Endutxent]"
proof -
  have h: "fst (getutxid BOOT_TIME (boot_os (Some (mk_timeval 1005 250000))
        [\<lparr>ut_type = USER_PROCESS, ut_tv = mk_timeval 1000 500000\<rparr>] None)) = None"
    by (simp add: getutxid_def boot_os_def)
  from posix_no_record_is_none [OF h] h show ?thesis by (simp add: boot_os_def)
qed

text \<open>
  C7. After any call of \<^verbatim>\<open>_uptime_posix\<close>, whether a boot record was found or not and
  whatever the state of the database before the call, the accounting database is closed.
\<close>

theorem posix_closes_database: "utx_pos (snd (uptime_posix s)) = None"
  by (auto simp: uptime_posix_def endutxent_def calc_uptime_def gettimeofday_def Let_def
      split: prod.splits option.splits)

text \<open>
  C8. For two timestamps with microsecond fields in \<open>[0, 1000000)\<close>, the microsecond
  field left by the subtraction is the delta of the two input fields after the borrow:
  \<open>1000000 - Busec + Nusec\<close> when \<open>Nusec < Busec\<close> and \<open>Nusec - Busec\<close> otherwise, that
  is \<open>(Nusec - Busec) mod 1000000\<close>; and it lies in \<open>[0, 1000000)\<close>.
\<close>

theorem usec_delta_normalised:
  assumes "usec_ok tv" "usec_ok bt"
  shows "sint (tv_usec (subtract_boot_time tv bt)) =
           (if sint (tv_usec tv) < sint (tv_usec bt)
            then 1000000 - sint (tv_usec bt) + sint (tv_usec tv)
            else sint (tv_usec tv) - sint (tv_usec bt)) \<and>
         sint (tv_usec (subtract_boot_time tv bt)) =
           (sint (tv_usec tv) - sint (tv_usec bt)) mod 1000000 \<and>
         0 \<le> sint (tv_usec (subtract_boot_time tv bt)) \<and>
         sint (tv_usec (subtract_boot_time tv bt)) < 1000000"
proof -
  define a where "a = sint (tv_usec tv)"
  define b where "b = sint (tv_usec bt)"
  define r where "r = sint (tv_usec (subtract_boot_time tv bt))"
  have ab: "0 \<le> a" "a < 1000000" "0 \<le> b" "b < 1000000"
    using assms by (simp_all add: usec_ok_def a_def b_def)
  have r: "r = (if a < b then 1000000 - b + a else a - b)"
    using usec_delta [OF assms] by (simp add: r_def a_def b_def borrow_def)
  have range: "0 \<le> r" "r < 1000000" using ab r by (auto split: if_splits)
  have "(a - b) mod 1000000 = r"
  proof (cases "a < b")
    case True
    then have "r = a - b + 1000000" using r by simp
    then have "r mod 1000000 = (a - b) mod 1000000" by simp
    with range show ?thesis by simp
  next
    case False
    then have "r = a - b" using r by simp
    with range show ?thesis by simp
  qed
  with r range show ?thesis unfolding a_def b_def r_def by simp
qed

theorem usec_delta_normalised_witness:
  "usec_ok (mk_timeval 1005 250000) \<and> usec_ok (mk_timeval 1000 500000) \<and>
   sint (tv_usec (subtract_boot_time (mk_timeval 1005 250000) (mk_timeval 1000 500000)))
     = 750000 \<and>
   (sint (tv_usec (mk_timeval 1005 250000)) - sint (tv_usec (mk_timeval 1000 500000)))
     mod 1000000 = 750000 \<and>
   0 \<le> sint (tv_usec (subtract_boot_time (mk_timeval 1005 250000) (mk_timeval 1000 500000))) \<and>
   sint (tv_usec (subtract_boot_time (mk_timeval 1005 250000) (mk_timeval 1000 500000)))
     < 1000000"
proof -
  have a: "usec_ok (mk_timeval 1005 250000)" by (simp add: usec_ok_def mk_timeval_def)
  have b: "usec_ok (mk_timeval 1000 500000)" by (simp add: usec_ok_def mk_timeval_def)
  have "sint (tv_usec (subtract_boot_time (mk_timeval 1005 250000) (mk_timeval 1000 500000)))
     = 750000 \<and>
   (sint (tv_usec (mk_timeval 1005 250000)) - sint (tv_usec (mk_timeval 1000 500000)))
     mod 1000000 = 750000 \<and>
   0 \<le> sint (tv_usec (subtract_boot_time (mk_timeval 1005 250000) (mk_timeval 1000 500000))) \<and>
   sint (tv_usec (subtract_boot_time (mk_timeval 1005 250000) (mk_timeval 1000 500000)))
     < 1000000"
    using usec_delta_normalised [OF a b] by (simp add: mk_timeval_def)
  with a b show ?thesis by blast
qed

text \<open>
  C9. With boot time \<open>(1000, 500000)\<close> and current time \<open>(1005, 250000)\<close> the subtraction
  borrows and \<^verbatim>\<open>_calc_uptime\<close> returns the double 4.75; with both \<open>(1000, 0)\<close> it does not
  borrow and returns 0.0. Both values are exact: 0.75 and 4.75 are binary64 numbers.
\<close>

theorem calc_uptime_examples:
  "borrow (mk_timeval 1005 250000) (mk_timeval 1000 500000) \<and>
   fst (calc_uptime (mk_timeval 1000 500000)
         (s\<lparr>clock := Some (mk_timeval 1005 250000)\<rparr>)) = 19 / 4 \<and>
   \<not> borrow (mk_timeval 1000 0) (mk_timeval 1000 0) \<and>
   fst (calc_uptime (mk_timeval 1000 0) (s\<lparr>clock := Some (mk_timeval 1000 0)\<rparr>)) = 0"
proof -
  have b: "borrow (mk_timeval 1005 250000) (mk_timeval 1000 500000)"
    by (simp add: borrow_def mk_timeval_def)
  have s1: "subtract_boot_time (mk_timeval 1005 250000) (mk_timeval 1000 500000)
      = mk_timeval 4 750000"
    by (simp add: subtract_boot_time_def borrow_def mk_timeval_def)
  have v1: "seconds_of (mk_timeval 4 750000) = 19 / 4"
    by (simp add: seconds_of_def mk_timeval_def double_of_unsigned_def double_add_def
        double_div_def round_double_three_quarters round_double_19_4)
  have nb: "\<not> borrow (mk_timeval 1000 0) (mk_timeval 1000 0)"
    by (simp add: borrow_def mk_timeval_def)
  have s2: "subtract_boot_time (mk_timeval 1000 0) (mk_timeval 1000 0) = mk_timeval 0 0"
    by (simp add: subtract_boot_time_def borrow_def mk_timeval_def)
  have v2: "seconds_of (mk_timeval 0 0) = 0"
    by (simp add: seconds_of_def mk_timeval_def double_of_unsigned_def double_add_def
        double_div_def round_double_zero)
  show ?thesis
    by (simp add: calc_uptime_clock b nb s1 s2 v1 v2)
qed

text \<open>
  C1 (as amended). Either entry point returns \<^verbatim>\<open>Py_None\<close> or a float. The float is
  non-negative when \<^verbatim>\<open>gettimeofday\<close> succeeded; when \<^verbatim>\<open>gettimeofday\<close> failed it is
  exactly the error value \<open>-1.0\<close> of \<^verbatim>\<open>_calc_uptime\<close>, passed on unchanged.
\<close>

theorem entry_points_none_or_float:
  "(fst (uptime_posix s) = PyNone \<or>
      (\<exists>d. fst (uptime_posix s) = PyFloat d \<and> ((clock s \<noteq> None \<and> 0 \<le> d) \<or> (clock s = None \<and> d = - 1)))) \<and>
   (fst (uptime_osx apple s) = PyNone \<or>
      (\<exists>d. fst (uptime_osx apple s) = PyFloat d \<and> ((clock s \<noteq> None \<and> 0 \<le> d) \<or> (clock s = None \<and> d = - 1))))"
proof -
  have p: "fst (uptime_posix s) = PyNone \<or>
      (\<exists>d. fst (uptime_posix s) = PyFloat d \<and> ((clock s \<noteq> None \<and> 0 \<le> d) \<or> (clock s = None \<and> d = - 1)))"
  proof (cases "fst (getutxid BOOT_TIME s)")
    case None
    then show ?thesis by (simp add: uptime_posix_result)
  next
    case (Some res)
    with calc_uptime_nonneg_or_fail
      [where bt = "ut_tv res" and s = "endutxent (snd (getutxid BOOT_TIME s))"]
    show ?thesis
      by (simp add: uptime_posix_result endutxent_clock getutxid_clock)
  qed
  have q: "fst (uptime_osx apple s) = PyNone \<or>
      (\<exists>d. fst (uptime_osx apple s) = PyFloat d \<and> ((clock s \<noteq> None \<and> 0 \<le> d) \<or> (clock s = None \<and> d = - 1)))"
  proof (cases "fst (sysctlbyname_boottime sizeof_timeval s)")
    case None
    then show ?thesis by (simp add: uptime_osx_result)
  next
    case (Some r)
    with calc_uptime_nonneg_or_fail
      [where bt = "fst r" and s = "snd (sysctlbyname_boottime sizeof_timeval s)"]
    show ?thesis
      by (simp add: uptime_osx_result sysctl_clock)
  qed
  from p q show ?thesis ..
qed

text \<open>
  C1 as stated (no negative number is ever returned) fails: with a boot record in the
  database and a failing clock, \<^verbatim>\<open>_uptime_posix\<close> returns the float \<open>-1.0\<close>.
\<close>

theorem negative_result_counterexample:
  "fst (uptime_posix (boot_os None [\<lparr>ut_type = BOOT_TIME, ut_tv = mk_timeval 1000 0\<rparr>] None))
     = PyFloat (- 1) \<and> (- 1 :: rat) < 0"
  by (simp add: uptime_posix_result getutxid_def boot_os_def calc_uptime_fail endutxent_def)

text \<open>
  C2 (as amended). For a boot time \<open>bt\<close> and a current time \<open>tv\<close> with normalised
  microsecond fields, \<open>tv\<close> not before \<open>bt\<close> and less than \<open>2 ^ 32\<close> seconds after it,
  the double returned by \<^verbatim>\<open>_calc_uptime\<close> is the true difference
  \<open>(Nsec - Bsec) + (Nusec - Busec) / 1000000\<close> up to the rounding of the two double
  operations: it is off by less than half a microsecond.
\<close>

theorem elapsed_within_half_microsecond:
  assumes "clock s = Some tv" "usec_ok tv" "usec_ok bt"
    and "micros bt \<le> micros tv" "micros tv - micros bt < 2 ^ 32 * 1000000"
  shows "\<bar>fst (calc_uptime bt s)
           - (of_int (sint (tv_sec tv) - sint (tv_sec bt))
              + of_int (sint (tv_usec tv) - sint (tv_usec bt)) / 1000000)\<bar> < 1 / 2000000"
proof -
  have "(of_int (micros tv - micros bt) :: rat) / 1000000
      = of_int (sint (tv_sec tv) - sint (tv_sec bt))
        + of_int (sint (tv_usec tv) - sint (tv_usec bt)) / 1000000"
    by (simp add: micros_def field_simps)
  with elapsed_value(1) [OF assms(2-5)] show ?thesis
    by (simp only: calc_uptime_clock [OF assms(1)])
qed

theorem elapsed_within_half_microsecond_witness:
  "clock (boot_os (Some (mk_timeval 1700003600 250000)) [] None)
     = Some (mk_timeval 1700003600 250000) \<and>
   usec_ok (mk_timeval 1700003600 250000) \<and> usec_ok (mk_timeval 1700000000 500000) \<and>
   micros (mk_timeval 1700000000 500000) \<le> micros (mk_timeval 1700003600 250000) \<and>
   micros (mk_timeval 1700003600 250000) - micros (mk_timeval 1700000000 500000)
     < 2 ^ 32 * 1000000 \<and>
   \<bar>fst (calc_uptime (mk_timeval 1700000000 500000)
          (boot_os (Some (mk_timeval 1700003600 250000)) [] None)) - 14399 / 4\<bar> < 1 / 2000000"
proof -
  have c: "clock (boot_os (Some (mk_timeval 1700003600 250000)) [] None)
     = Some (mk_timeval 1700003600 250000)" by (simp add: boot_os_def)
  have a: "usec_ok (mk_timeval 1700003600 250000)" by (simp add: usec_ok_def mk_timeval_def)
  have b: "usec_ok (mk_timeval 1700000000 500000)" by (simp add: usec_ok_def mk_timeval_def)
  have m: "micros (mk_timeval 1700000000 500000) \<le> micros (mk_timeval 1700003600 250000)"
    by (simp add: micros_def mk_timeval_def)
  have l: "micros (mk_timeval 1700003600 250000) - micros (mk_timeval 1700000000 500000)
     < 2 ^ 32 * 1000000" by (simp add: micros_def mk_timeval_def)
  have "\<bar>fst (calc_uptime (mk_timeval 1700000000 500000)
          (boot_os (Some (mk_timeval 1700003600 250000)) [] None)) - 14399 / 4\<bar> < 1 / 2000000"
    using elapsed_within_half_microsecond [OF c a b m l] by (simp add: mk_timeval_def)
  with c a b m l show ?thesis by blast
qed

text \<open>
  C2 as stated (for every \<open>tv\<close> not before \<open>bt\<close>) fails once the difference reaches
  \<open>2 ^ 32\<close> seconds: the cast to \<^verbatim>\<open>unsigned\<close> drops the high bits of the second delta.
  With boot time \<open>(0, 0)\<close> and current time \<open>(4294967296, 0)\<close> the result is 0.0, not
  4294967296.
\<close>

theorem elapsed_truncated_counterexample:
  "usec_ok (mk_timeval 4294967296 0) \<and> usec_ok (mk_timeval 0 0) \<and>
   micros (mk_timeval 0 0) \<le> micros (mk_timeval 4294967296 0) \<and>
   fst (calc_uptime (mk_timeval 0 0) (boot_os (Some (mk_timeval 4294967296 0)) [] None)) = 0 \<and>
   of_int (sint (tv_sec (mk_timeval 4294967296 0)) - sint (tv_sec (mk_timeval 0 0)))
     + of_int (sint (tv_usec (mk_timeval 4294967296 0)) - sint (tv_usec (mk_timeval 0 0)))
       / 1000000 = (4294967296 :: rat)"
proof -
  have s: "subtract_boot_time (mk_timeval 4294967296 0) (mk_timeval 0 0) = mk_timeval 4294967296 0"
    by (simp add: subtract_boot_time_def borrow_def mk_timeval_def)
  have v: "seconds_of (mk_timeval 4294967296 0) = 0"
    by (simp add: seconds_of_def mk_timeval_def double_of_unsigned_def double_add_def
        double_div_def round_double_zero)
  show ?thesis
    by (simp add: calc_uptime_clock [of _ "mk_timeval 4294967296 0"] boot_os_def s v)
       (simp add: usec_ok_def micros_def mk_timeval_def)
qed

text \<open>
  C3 (as amended). On the borrow path (current microseconds below boot microseconds), for
  normalised timestamps with \<open>tv\<close> not before \<open>bt\<close> and less than \<open>2 ^ 32\<close> seconds
  after it: the second delta is \<open>Nsec - 1 - Bsec\<close>, the microsecond delta is
  \<open>1000000 - Busec + Nusec\<close>, and the double returned is, to less than half a microsecond,
  the difference of the two timestamps each taken as seconds plus microseconds over a
  million. No second is lost or gained.
\<close>

theorem borrow_keeps_seconds:
  assumes "clock s = Some tv" "usec_ok tv" "usec_ok bt"
    and "micros bt \<le> micros tv" "micros tv - micros bt < 2 ^ 32 * 1000000"
    and "sint (tv_usec tv) < sint (tv_usec bt)"
  shows "sint (tv_sec (subtract_boot_time tv bt)) = sint (tv_sec tv) - 1 - sint (tv_sec bt) \<and>
    sint (tv_usec (subtract_boot_time tv bt)) = 1000000 - sint (tv_usec bt) + sint (tv_usec tv) \<and>
    \<bar>fst (calc_uptime bt s)
       - ((of_int (sint (tv_sec tv)) + of_int (sint (tv_usec tv)) / 1000000)
          - (of_int (sint (tv_sec bt)) + of_int (sint (tv_usec bt)) / 1000000))\<bar> < 1 / 2000000"
proof -
  have b: "borrow tv bt" using assms(6) by (simp add: borrow_def)
  have "(of_int (micros tv - micros bt) :: rat) / 1000000
      = (of_int (sint (tv_sec tv)) + of_int (sint (tv_usec tv)) / 1000000)
          - (of_int (sint (tv_sec bt)) + of_int (sint (tv_usec bt)) / 1000000)"
    by (simp add: micros_def field_simps)
  with elapsed_value(1) [OF assms(2-5)]
  have "\<bar>fst (calc_uptime bt s)
       - ((of_int (sint (tv_sec tv)) + of_int (sint (tv_usec tv)) / 1000000)
          - (of_int (sint (tv_sec bt)) + of_int (sint (tv_usec bt)) / 1000000))\<bar> < 1 / 2000000"
    by (simp only: calc_uptime_clock [OF assms(1)])
  moreover have "sint (tv_sec (subtract_boot_time tv bt)) = sint (tv_sec tv) - 1 - sint (tv_sec bt)"
    using elapsed_value(2) [OF assms(2-5)] b by (simp add: sec_delta_def)
  moreover have "sint (tv_usec (subtract_boot_time tv bt))
      = 1000000 - sint (tv_usec bt) + sint (tv_usec tv)"
    using usec_delta [OF assms(2,3)] b by simp
  ultimately show ?thesis by blast
qed

theorem borrow_keeps_seconds_witness:
  "clock (boot_os (Some (mk_timeval 1005 250000)) [] None) = Some (mk_timeval 1005 250000) \<and>
   usec_ok (mk_timeval 1005 250000) \<and> usec_ok (mk_timeval 1000 500000) \<and>
   micros (mk_timeval 1000 500000) \<le> micros (mk_timeval 1005 250000) \<and>
   micros (mk_timeval 1005 250000) - micros (mk_timeval 1000 500000) < 2 ^ 32 * 1000000 \<and>
   sint (tv_usec (mk_timeval 1005 250000)) < sint (tv_usec (mk_timeval 1000 500000)) \<and>
   sint (tv_sec (subtract_boot_time (mk_timeval 1005 250000) (mk_timeval 1000 500000))) = 4 \<and>
   sint (tv_usec (subtract_boot_time (mk_timeval 1005 250000) (mk_timeval 1000 500000)))
     = 750000 \<and>
   \<bar>fst (calc_uptime (mk_timeval 1000 500000)
          (boot_os (Some (mk_timeval 1005 250000)) [] None)) - 19 / 4\<bar> < 1 / 2000000"
proof -
  have c: "clock (boot_os (Some (mk_timeval 1005 250000)) [] None)
      = Some (mk_timeval 1005 250000)" by (simp add: boot_os_def)
  have a: "usec_ok (mk_timeval 1005 250000)" by (simp add: usec_ok_def mk_timeval_def)
  have b: "usec_ok (mk_timeval 1000 500000)" by (simp add: usec_ok_def mk_timeval_def)
  have m: "micros (mk_timeval 1000 500000) \<le> micros (mk_timeval 1005 250000)"
    by (simp add: micros_def mk_timeval_def)
  have l: "micros (mk_timeval 1005 250000) - micros (mk_timeval 1000 500000)
      < 2 ^ 32 * 1000000" by (simp add: micros_def mk_timeval_def)
  have u: "sint (tv_usec (mk_timeval 1005 250000)) < sint (tv_usec (mk_timeval 1000 500000))"
    by (simp add: mk_timeval_def)
  have "sint (tv_sec (subtract_boot_time (mk_timeval 1005 250000) (mk_timeval 1000 500000))) = 4 \<and>
   sint (tv_usec (subtract_boot_time (mk_timeval 1005 250000) (mk_timeval 1000 500000)))
     = 750000 \<and>
   \<bar>fst (calc_uptime (mk_timeval 1000 500000)
          (boot_os (Some (mk_timeval 1005 250000)) [] None)) - 19 / 4\<bar> < 1 / 2000000"
    using borrow_keeps_seconds [OF c a b m l u] by (simp add: mk_timeval_def)
  with c a b m l u show ?thesis by blast
qed

text \<open>
  C3 as stated (for every pair with \<open>tv\<close> not before \<open>bt\<close>) fails for the same reason as
  C2: with boot time \<open>(0, 500000)\<close> and current time \<open>(4294967297, 0)\<close> the borrow path
  leaves \<open>2 ^ 32\<close> seconds and 500000 microseconds, the cast keeps 0 seconds, and the
  result is 0.5 where the difference of the combined values is 4294967296.5.
\<close>

theorem borrow_truncated_counterexample:
  "usec_ok (mk_timeval 4294967297 0) \<and> usec_ok (mk_timeval 0 500000) \<and>
   micros (mk_timeval 0 500000) \<le> micros (mk_timeval 4294967297 0) \<and>
   sint (tv_usec (mk_timeval 4294967297 0)) < sint (tv_usec (mk_timeval 0 500000)) \<and>
   fst (calc_uptime (mk_timeval 0 500000)
         (boot_os (Some (mk_timeval 4294967297 0)) [] None)) = 1 / 2 \<and>
   (of_int (sint (tv_sec (mk_timeval 4294967297 0)))
      + of_int (sint (tv_usec (mk_timeval 4294967297 0))) / 1000000)
     - (of_int (sint (tv_sec (mk_timeval 0 500000)))
        + of_int (sint (tv_usec (mk_timeval 0 500000))) / 1000000) = (8589934593 / 2 :: rat)"
proof -
  have s: "subtract_boot_time (mk_timeval 4294967297 0) (mk_timeval 0 500000)
      = mk_timeval 4294967296 500000"
    by (simp add: subtract_boot_time_def borrow_def mk_timeval_def)
  have v: "seconds_of (mk_timeval 4294967296 500000) = 1 / 2"
    by (simp add: seconds_of_def mk_timeval_def double_of_unsigned_def double_add_def
        double_div_def round_double_half)
  show ?thesis
    by (simp add: calc_uptime_clock [of _ "mk_timeval 4294967297 0"] boot_os_def s v)
       (simp add: usec_ok_def micros_def mk_timeval_def)
qed

text \<open>
  C4. Both deltas are taken modulo \<open>2 ^ 32\<close> before they are combined. So when the boot
  time is later than the current time and the second delta is negative, \<^verbatim>\<open>_calc_uptime\<close>
  still returns a non-negative double: to less than half a microsecond it is the second
  delta modulo \<open>2 ^ 32\<close>, which is above the delta itself, plus the microsecond delta
  (modulo \<open>2 ^ 32\<close>) over a million.
\<close>

theorem negative_delta_wraps:
  assumes "clock s = Some tv" "sec_delta tv bt < 0"
  shows "0 \<le> fst (calc_uptime bt s) \<and>
    sec_delta tv bt < sec_delta tv bt mod 2 ^ 32 \<and>
    \<bar>fst (calc_uptime bt s)
       - (of_int (sec_delta tv bt mod 2 ^ 32)
          + of_int (sint (tv_usec (subtract_boot_time tv bt)) mod 2 ^ 32) / 1000000)\<bar>
      < 1 / 2000000"
proof -
  have "0 \<le> sec_delta tv bt mod 2 ^ 32" by simp
  with assms(2) have "sec_delta tv bt < sec_delta tv bt mod 2 ^ 32" by linarith
  moreover have "0 \<le> fst (calc_uptime bt s)"
    by (simp only: calc_uptime_clock [OF assms(1)] seconds_of_bound(1))
  moreover have "\<bar>fst (calc_uptime bt s)
       - (of_int (sec_delta tv bt mod 2 ^ 32)
          + of_int (sint (tv_usec (subtract_boot_time tv bt)) mod 2 ^ 32) / 1000000)\<bar>
      < 1 / 2000000"
    using seconds_of_bound(2) [of "subtract_boot_time tv bt"]
    by (simp only: calc_uptime_clock [OF assms(1)] sint_sec_sub)
  ultimately show ?thesis by blast
qed

theorem negative_delta_wraps_witness:
  "clock (boot_os (Some (mk_timeval 1000 0)) [] None) = Some (mk_timeval 1000 0) \<and>
   sec_delta (mk_timeval 1000 0) (mk_timeval 1005 250000) < 0 \<and>
   sec_delta (mk_timeval 1000 0) (mk_timeval 1005 250000) = - 6 \<and>
   0 \<le> fst (calc_uptime (mk_timeval 1005 250000) (boot_os (Some (mk_timeval 1000 0)) [] None)) \<and>
   \<bar>fst (calc_uptime (mk_timeval 1005 250000) (boot_os (Some (mk_timeval 1000 0)) [] None))
      - (4294967290 + 750000 / 1000000)\<bar> < 1 / 2000000"
proof -
  have c: "clock (boot_os (Some (mk_timeval 1000 0)) [] None) = Some (mk_timeval 1000 0)"
    by (simp add: boot_os_def)
  have d: "sec_delta (mk_timeval 1000 0) (mk_timeval 1005 250000) = - 6"
    by (simp add: sec_delta_def borrow_def mk_timeval_def)
  then have n: "sec_delta (mk_timeval 1000 0) (mk_timeval 1005 250000) < 0" by simp
  have u: "tv_usec (subtract_boot_time (mk_timeval 1000 0) (mk_timeval 1005 250000)) = 750000"
    by (simp add: subtract_boot_time_def borrow_def mk_timeval_def)
  from negative_delta_wraps [OF c n] c d n show ?thesis by (simp add: u)
qed

text \<open>
  C6 (as amended). \<^verbatim>\<open>_uptime_osx\<close> returns a float exactly when it was compiled for the
  platform with the kernel parameter and the query succeeds, that is when the parameter
  exists and its value fits the buffer of \<^verbatim>\<open>sizeof(struct timeval)\<close> bytes. In every other
  case (compiled without \<^verbatim>\<open>__APPLE__\<close>, parameter absent, value larger than a timestamp
  pair) it returns \<^verbatim>\<open>Py_None\<close>.
\<close>

theorem osx_float_iff_query_succeeds:
  "(fst (uptime_osx apple s) \<noteq> PyNone) =
     (apple \<and> (\<exists>p. kern_boottime s = Some p \<and> kp_size p \<le> sizeof_timeval))"
  by (auto simp: uptime_osx_result sysctlbyname_boottime_def Let_def split: option.splits)

text \<open>
  C6 as stated (a value of any size other than that of a timestamp pair gives
  \<^verbatim>\<open>Py_None\<close>) fails for a shorter value: the query succeeds, the length it stores back
  is not examined, and a float is returned.
\<close>

theorem osx_short_value_counterexample:
  "kp_size \<lparr>kp_size = 8, kp_tv = mk_timeval 0 0\<rparr> \<noteq> sizeof_timeval \<and>
   fst (uptime_osx True (boot_os (Some (mk_timeval 0 0)) []
         (Some \<lparr>kp_size = 8, kp_tv = mk_timeval 0 0\<rparr>))) = PyFloat 0"
proof -
  have s: "subtract_boot_time (mk_timeval 0 0) (mk_timeval 0 0) = mk_timeval 0 0"
    by (simp add: subtract_boot_time_def borrow_def mk_timeval_def)
  have v: "seconds_of (mk_timeval 0 0) = 0"
    by (simp add: seconds_of_def mk_timeval_def double_of_unsigned_def double_add_def
        double_div_def round_double_zero)
  show ?thesis
    by (simp add: uptime_osx_result sysctlbyname_boottime_def sizeof_timeval_def boot_os_def
        calc_uptime_clock s v)
qed

text \<open>
  C10. When \<^verbatim>\<open>gettimeofday\<close> fails, \<^verbatim>\<open>_calc_uptime\<close> returns \<open>-1\<close>, and each entry point
  that has obtained a boot timestamp returns the float \<open>-1.0\<close>, not \<^verbatim>\<open>Py_None\<close>.
\<close>

theorem clock_failure_returns_minus_one:
  assumes "clock s = None"
  shows "fst (calc_uptime bt s) = - 1 \<and>
    fst (uptime_posix s) =
      (case fst (getutxid BOOT_TIME s) of None \<Rightarrow> PyNone | Some res \<Rightarrow> PyFloat (- 1)) \<and>
    fst (uptime_osx True s) =
      (case fst (sysctlbyname_boottime sizeof_timeval s) of
         None \<Rightarrow> PyNone | Some r \<Rightarrow> PyFloat (- 1)) \<and>
    PyFloat (- 1) \<noteq> PyNone"
  using assms
  by (simp add: calc_uptime_fail uptime_posix_result uptime_osx_result endutxent_clock
      getutxid_clock sysctl_clock split: option.splits)

theorem clock_failure_returns_minus_one_witness:
  "clock (boot_os None [\<lparr>ut_type = BOOT_TIME, ut_tv = mk_timeval 1700000000 0\<rparr>]
            (Some \<lparr>kp_size = 16, kp_tv = mk_timeval 1700000000 0\<rparr>)) = None \<and>
   fst (calc_uptime (mk_timeval 1700000000 0)
         (boot_os None [\<lparr>ut_type = BOOT_TIME, ut_tv = mk_timeval 1700000000 0\<rparr>]
            (Some \<lparr>kp_size = 16, kp_tv = mk_timeval 1700000000 0\<rparr>))) = - 1 \<and>
   fst (uptime_posix
         (boot_os None [\<lparr>ut_type = BOOT_TIME, ut_tv = mk_timeval 1700000000 0\<rparr>]
            (Some \<lparr>kp_size = 16, kp_tv = mk_timeval 1700000000 0\<rparr>))) = PyFloat (- 1) \<and>
   fst (uptime_osx True
         (boot_os None [\<lparr>ut_type = BOOT_TIME, ut_tv = mk_timeval 1700000000 0\<rparr>]
            (Some \<lparr>kp_size = 16, kp_tv = mk_timeval 1700000000 0\<rparr>))) = PyFloat (- 1)"
proof -
  have h: "clock (boot_os None [\<lparr>ut_type = BOOT_TIME, ut_tv = mk_timeval 1700000000 0\<rparr>]
            (Some \<lparr>kp_size = 16, kp_tv = mk_timeval 1700000000 0\<rparr>)) = None"
    by (simp add: boot_os_def)
  from clock_failure_returns_minus_one [OF h, of "mk_timeval 1700000000 0"] h show ?thesis
    by (simp add: getutxid_def sysctlbyname_boottime_def sizeof_timeval_def boot_os_def)
qed

end
